theory Spec2Isabelle
  imports Complex_Main
begin

section \<open>Data model of FacePlayTrigger (src/main.py)\<close>

text \<open>
  The class \<open>FacePlayTrigger\<close> becomes the record \<open>trigger\<close>. Only the fields that some
  method reads after \<open>__init__\<close> are kept; the cascades, the camera and the counters that
  are initialised and never used again (\<open>previous_face_area\<close>, \<open>eye_blink_counter\<close>,
  \<open>frame_count\<close>, \<open>face_area_history\<close>, \<open>movement_cooldown\<close>) are left out.
  Timestamps (\<open>time.time()\<close>) are real numbers; Python integers are \<open>int\<close>.
  A bounding box is the tuple \<open>(x, y, w, h)\<close>. A process handle is the identity of the
  \<open>Popen\<close> object.
\<close>

type_synonym box = "int \<times> int \<times> int \<times> int"

type_synonym proc = nat

text \<open>A JSON object whose values are strings, in file order; \<open>map_of\<close> is \<open>dict.get\<close>.\<close>

type_synonym expression_config = "(string \<times> string) list"

record trigger =
  audio_process :: "proc option"
  last_trigger_time :: "string \<rightharpoonup> real"
  trigger_cooldown :: real
  config_expressions :: "(string \<times> expression_config) list option"
  last_eye_count :: int
  wink_frames :: int
  smile_frames :: int
  music_file :: "string option"
  is_smiling :: bool
  is_paused :: bool
  last_smile_check :: real
  smile_check_interval :: real

text \<open>
  \<open>__init__\<close>, lines 17-51. The argument is the value of \<open>self.config.get("expressions")\<close>
  after \<open>load_config\<close>: \<open>None\<close> when config.json has no such key.
\<close>

definition init_trigger :: "(string \<times> expression_config) list option \<Rightarrow> trigger" where
  "init_trigger cfg =
     \<lparr> audio_process = None,
       last_trigger_time = [''eyebrow_raise'' \<mapsto> 0, ''wink'' \<mapsto> 0, ''smile'' \<mapsto> 0],
       trigger_cooldown = 3,
       config_expressions = cfg,
       last_eye_count = 2,
       wink_frames = 0,
       smile_frames = 0,
       music_file = None,
       is_smiling = False,
       is_paused = False,
       last_smile_check = 0,
       smile_check_interval = 3 / 2 \<rparr>"

text \<open>The built-in configuration of \<open>load_config\<close>, lines 60-77.\<close>

definition default_expressions :: "(string \<times> expression_config) list" where
  "default_expressions =
     [(''eyebrow_raise'',
         [(''action'', ''play_youtube''),
          (''media_path'', ''https://www.youtube.com/watch?v=VlZdCpPXLns''),
          (''description'', ''Face movement triggers YouTube video'')]),
      (''wink'',
         [(''action'', ''play_local''),
          (''media_path'', ''default_music.mp3''),
          (''description'', ''Wink triggers local music'')]),
      (''smile'',
         [(''action'', ''play_youtube''),
          (''media_path'', ''https://www.youtube.com/watch?v=DDQCO3Vykts''),
          (''description'', ''Smile triggers YouTube video'')])]"

section \<open>Signal debouncer\<close>

text \<open>
  \<open>detect_wink\<close>, lines 99-119. The argument is the list of eye boxes; the result is the
  returned boolean and the updated object.
\<close>

definition detect_wink :: "box list \<Rightarrow> trigger \<Rightarrow> bool \<times> trigger" where
  "detect_wink eyes t =
     (let current_eye_count = int (length eyes) in
      if last_eye_count t = 2 \<and> current_eye_count = 1 then
        (False, t\<lparr>wink_frames := wink_frames t + 1, last_eye_count := current_eye_count\<rparr>)
      else if last_eye_count t = 1 \<and> current_eye_count = 2 \<and> wink_frames t > 0 then
        (if 1 \<le> wink_frames t \<and> wink_frames t \<le> 8 then
           (True, t\<lparr>wink_frames := 0, last_eye_count := current_eye_count\<rparr>)
         else
           (False, t\<lparr>wink_frames := 0, last_eye_count := current_eye_count\<rparr>))
      else if current_eye_count = 2 then
        (if wink_frames t > 0 then
           (False, t\<lparr>wink_frames := 0, last_eye_count := current_eye_count\<rparr>)
         else
           (False, t\<lparr>last_eye_count := current_eye_count\<rparr>))
      else
        (False, t\<lparr>last_eye_count := current_eye_count\<rparr>))"

text \<open>Feeding the detector one eye list per frame; the result lists what each call returned.\<close>

fun wink_events :: "box list list \<Rightarrow> trigger \<Rightarrow> bool list \<times> trigger" where
  "wink_events [] t = ([], t)"
| "wink_events (eyes # rest) t =
     (let (b, t1) = detect_wink eyes t; (bs, t2) = wink_events rest t1 in (b # bs, t2))"

text \<open>A frame in which the eye cascade reports \<open>n\<close> boxes.\<close>

definition eyes_seen :: "nat \<Rightarrow> box list" where
  "eyes_seen n = replicate n (0, 0, 10, 10)"

text \<open>
  \<open>detect_smile\<close>, lines 121-141. The argument is what \<open>smile_cascade.detectMultiScale\<close>
  returned for the face region.
\<close>

definition detect_smile :: "box list \<Rightarrow> trigger \<Rightarrow> bool \<times> trigger" where
  "detect_smile smiles t =
     (if length smiles > 0 then
        (let t1 = t\<lparr>smile_frames := smile_frames t + 1\<rparr> in
         if smile_frames t1 = 3 then (True, t1) else (False, t1))
      else (False, t\<lparr>smile_frames := 0\<rparr>))"

fun smile_events :: "box list list \<Rightarrow> trigger \<Rightarrow> bool list \<times> trigger" where
  "smile_events [] t = ([], t)"
| "smile_events (smiles # rest) t =
     (let (b, t1) = detect_smile smiles t; (bs, t2) = smile_events rest t1 in (b # bs, t2))"

text \<open>The smile boolean of a frame, and the length of the run of smiling frames that ends
  at the last frame of a sequence.\<close>

definition smile_present :: "box list \<Rightarrow> bool" where
  "smile_present smiles = (length smiles > 0)"

definition trailing_run :: "box list list \<Rightarrow> nat" where
  "trailing_run fs = length (takeWhile smile_present (rev fs))"

text \<open>
  The lengths of the maximal runs of \<open>True\<close> in a boolean sequence, in order; the second
  argument is the length of the run that is open when the sequence starts.
\<close>

fun run_lengths :: "bool list \<Rightarrow> nat \<Rightarrow> nat list" where
  "run_lengths [] n = (if n > 0 then [n] else [])"
| "run_lengths (b # bs) n =
     (if b then run_lengths bs (Suc n)
      else (if n > 0 then [n] else []) @ run_lengths bs 0)"

section \<open>The world outside the object\<close>

text \<open>
  Exceptions are values of \<open>error\<close>. What the program does to its environment is recorded
  in a \<open>world\<close>: the effects in order (\<open>events\<close>), how often \<open>subprocess.Popen\<close> and
  \<open>subprocess.run\<close> (the apt call) have been entered, and the reports of the
  sustained-smile sampler (\<open>samples\<close>). What the environment answers is an \<open>os_env\<close>:
  the outcome of the n-th \<open>Popen\<close> and of the n-th apt call, which paths exist, and how many
  nested calls of \<open>play_music\<close> the interpreter stack still admits.
\<close>

datatype error = KeyError | AttributeError | FileNotFoundError | OSError | RecursionError

datatype event =
    Printed string
  | Spawned proc "string list"
  | SignalSent proc nat
  | Terminated proc
  | ThreadStarted string string

datatype popen_outcome = PopenOk proc | PopenFileNotFound | PopenOSError

datatype apt_outcome = AptOk | AptCalledProcessError | AptFileNotFound

datatype edge = Rising | Falling

record os_env =
  popen_result :: "nat \<Rightarrow> popen_outcome"
  apt_result :: "nat \<Rightarrow> apt_outcome"
  path_exists :: "string \<Rightarrow> bool"
  recursion_budget :: nat

record world =
  popen_calls :: nat
  apt_calls :: nat
  events :: "event list"
  samples :: "(real \<times> edge option) list"

definition init_world :: world where
  "init_world = \<lparr> popen_calls = 0, apt_calls = 0, events = [], samples = [] \<rparr>"

definition emit :: "event list \<Rightarrow> world \<Rightarrow> world" where
  "emit es w = w\<lparr>events := events w @ es\<rparr>"

text \<open>The audio processes the program has spawned and not terminated.\<close>

fun own_step :: "proc list \<Rightarrow> event \<Rightarrow> proc list" where
  "own_step ps (Spawned p args) = ps @ [p]"
| "own_step ps (Terminated p) = remove1 p ps"
| "own_step ps (Printed s) = ps"
| "own_step ps (SignalSent p n) = ps"
| "own_step ps (ThreadStarted f a) = ps"

definition owned :: "world \<Rightarrow> proc list" where
  "owned w = foldl own_step [] (events w)"

text \<open>Python truthiness of \<open>self.music_file\<close> and of a \<open>dict.get\<close> result that is a string.\<close>

definition truthy :: "string option \<Rightarrow> bool" where
  "truthy v = (case v of None \<Rightarrow> False | Some s \<Rightarrow> s \<noteq> [])"

section \<open>Trigger dispatcher\<close>

text \<open>
  \<open>trigger_action\<close>, lines 143-163. The first argument is the value \<open>time.time()\<close> returns.
  The object keeps what was assigned before an exception. \<open>self.play_local_audio\<close> is not
  defined anywhere in the class, so reading it raises AttributeError.
\<close>

definition trigger_action ::
  "real \<Rightarrow> string \<Rightarrow> trigger \<Rightarrow> world \<Rightarrow> error option \<times> trigger \<times> world" where
  "trigger_action current_time expression_name t w =
     (case last_trigger_time t expression_name of
        None \<Rightarrow> (Some KeyError, t, w)
      | Some last_time \<Rightarrow>
          if current_time - last_time < trigger_cooldown t then (None, t, w)
          else
            let t1 = t\<lparr>last_trigger_time := (last_trigger_time t)(expression_name \<mapsto> current_time)\<rparr> in
            (case config_expressions t1 of
               None \<Rightarrow> (Some KeyError, t1, w)
             | Some expressions \<Rightarrow>
                 (case map_of expressions expression_name of
                    None \<Rightarrow> (None, t1, w)
                  | Some expression_config \<Rightarrow>
                      if expression_config = [] then (None, t1, w)
                      else
                        (case map_of expression_config ''action'' of
                           None \<Rightarrow> (Some KeyError, t1, w)
                         | Some action \<Rightarrow>
                             (case map_of expression_config ''media_path'' of
                                None \<Rightarrow> (Some KeyError, t1, w)
                              | Some media_path \<Rightarrow>
                                  (case map_of expression_config ''description'' of
                                     None \<Rightarrow> (Some KeyError, t1, w)
                                   | Some description \<Rightarrow>
                                       let w1 = emit [Printed (''Triggered: '' @ expression_name
                                                        @ '' -> '' @ description)] w in
                                       if action = ''play_youtube'' then
                                         (None, t1, emit [ThreadStarted ''play_youtube'' media_path] w1)
                                       else if action = ''play_local'' then
                                         (Some AttributeError, t1, w1)
                                       else (None, t1, w1)))))))"

section \<open>Playback controller\<close>

text \<open>
  \<open>os.path.exists\<close>: the empty path names nothing, whatever the file system holds.
\<close>

definition os_path_exists :: "os_env \<Rightarrow> string \<Rightarrow> bool" where
  "os_path_exists env file_path = (file_path \<noteq> [] \<and> path_exists env file_path)"

text \<open>\<open>load_music\<close>, lines 173-181.\<close>

definition load_music :: "os_env \<Rightarrow> string \<Rightarrow> trigger \<Rightarrow> world \<Rightarrow> bool \<times> trigger \<times> world" where
  "load_music env file_path t w =
     (if os_path_exists env file_path then
        (True, t\<lparr>music_file := Some file_path\<rparr>, emit [Printed (''Music loaded: '' @ file_path)] w)
      else
        (False, t, emit [Printed (''Audio file not found: '' @ file_path)] w))"

text \<open>
  \<open>play_music\<close>, lines 183-209. The second argument is the number of further nested calls
  of \<open>play_music\<close> the interpreter admits before it raises RecursionError. An exception of
  \<open>Popen\<close> other than FileNotFoundError, and any exception of the apt call other than
  CalledProcessError, leaves the method.
\<close>

fun play_music :: "os_env \<Rightarrow> nat \<Rightarrow> trigger \<Rightarrow> world \<Rightarrow> error option \<times> trigger \<times> world" where
  "play_music env d t w =
     (case music_file t of
        None \<Rightarrow> (None, t, w)
      | Some file \<Rightarrow>
          if file = [] then (None, t, w)
          else
            (case audio_process t of
               None \<Rightarrow>
                 (let w1 = w\<lparr>popen_calls := popen_calls w + 1\<rparr> in
                  case popen_result env (popen_calls w) of
                    PopenOk p \<Rightarrow>
                      (None, t\<lparr>audio_process := Some p, is_paused := False\<rparr>,
                       emit [Spawned p [''mpg123'', ''--loop'', ''-1'', file],
                             Printed ''Music playing''] w1)
                  | PopenOSError \<Rightarrow> (Some OSError, t, w1)
                  | PopenFileNotFound \<Rightarrow>
                      (let w2 = emit [Printed ''mpg123 not found. Installing...'']
                                  (w1\<lparr>apt_calls := apt_calls w1 + 1\<rparr>) in
                       case apt_result env (apt_calls w) of
                         AptOk \<Rightarrow>
                           (case d of
                              0 \<Rightarrow> (Some RecursionError, t, w2)
                            | Suc d' \<Rightarrow> play_music env d' t w2)
                       | AptCalledProcessError \<Rightarrow>
                           (None, t, emit [Printed ''Failed to install mpg123''] w2)
                       | AptFileNotFound \<Rightarrow> (Some FileNotFoundError, t, w2)))
             | Some p \<Rightarrow>
                 if is_paused t then
                   (None, t\<lparr>is_paused := False\<rparr>,
                    emit [SignalSent p 18, Printed ''Music resumed''] w)
                 else (None, t, w)))"

text \<open>\<open>pause_music\<close>, lines 211-217, and \<open>stop_music\<close>, lines 219-225.\<close>

definition pause_music :: "trigger \<Rightarrow> world \<Rightarrow> trigger \<times> world" where
  "pause_music t w =
     (case audio_process t of
        Some p \<Rightarrow>
          if \<not> is_paused t then
            (t\<lparr>is_paused := True\<rparr>, emit [SignalSent p 19, Printed ''Music paused''] w)
          else (t, w)
      | None \<Rightarrow> (t, w))"

definition stop_music :: "trigger \<Rightarrow> world \<Rightarrow> trigger \<times> world" where
  "stop_music t w =
     (case audio_process t of
        Some p \<Rightarrow>
          (t\<lparr>audio_process := None, is_paused := False\<rparr>,
           emit [Terminated p, Printed ''Music stopped''] w)
      | None \<Rightarrow> (t, w))"

text \<open>
  The logical playback state the pair (\<open>audio_process\<close>, \<open>is_paused\<close>) stands for; the pair
  (no handle, paused) stands for none.
\<close>

datatype playback = Stopped | Playing | Paused

definition playback_state :: "trigger \<Rightarrow> playback option" where
  "playback_state t =
     (case audio_process t of
        None \<Rightarrow> if is_paused t then None else Some Stopped
      | Some p \<Rightarrow> if is_paused t then Some Paused else Some Playing)"

text \<open>Sequences of controller calls, starting anywhere; an exception does not undo
  what the call assigned before it.\<close>

datatype call = Load string | Play | Pause | Stop

fun do_call :: "os_env \<Rightarrow> call \<Rightarrow> trigger \<times> world \<Rightarrow> trigger \<times> world" where
  "do_call env (Load file_path) (t, w) = snd (load_music env file_path t w)"
| "do_call env Play (t, w) = snd (play_music env (recursion_budget env) t w)"
| "do_call env Pause (t, w) = pause_music t w"
| "do_call env Stop (t, w) = stop_music t w"

definition do_calls :: "os_env \<Rightarrow> call list \<Rightarrow> trigger \<times> world \<Rightarrow> trigger \<times> world" where
  "do_calls env cs s = foldl (\<lambda>s c. do_call env c s) s cs"

section \<open>Main loop\<close>

text \<open>
  What one iteration of \<open>run\<close> receives from its collaborators. A \<open>face\<close> is one entry of
  the face cascade's result together with what the loop body obtains while it handles that
  entry: the eye boxes, the result of the smile cascade that \<open>detect_smile_state\<close> would
  get for the region, and the value \<open>time.time()\<close> returns at line 288. A \<open>frame\<close> is the
  flag of \<open>cap.read()\<close>, the faces in the order of the result list, and the value of
  \<open>cv2.waitKey(1)\<close>. Drawing on the frame is not modelled.
\<close>

unbundle bit_operations_syntax

record face =
  face_coords :: box
  face_eyes :: "box list"
  face_smiles :: "box list"
  face_clock :: real

record frame =
  frame_ret :: bool
  frame_faces :: "face list"
  frame_key :: int

text \<open>\<open>detect_smile_state\<close>, lines 84-97, on the cascade's result.\<close>

definition detect_smile_state :: "box list \<Rightarrow> bool" where
  "detect_smile_state smiles = (length smiles > 0)"

text \<open>
  The body of the loop over \<open>faces\<close>, lines 268-313. Each sampling instant is reported in
  \<open>samples\<close> with the edge acted upon, if any.
\<close>

definition process_face :: "os_env \<Rightarrow> face \<Rightarrow> trigger \<Rightarrow> world \<Rightarrow> error option \<times> trigger \<times> world" where
  "process_face env f t w =
     (let current_time = face_clock f in
      if current_time - last_smile_check t \<ge> smile_check_interval t then
        (let t1 = t\<lparr>last_smile_check := current_time\<rparr>;
             current_smile_state = detect_smile_state (face_smiles f) in
         if current_smile_state \<and> \<not> is_smiling t1 then
           play_music env (recursion_budget env) (t1\<lparr>is_smiling := True\<rparr>)
             (w\<lparr>samples := samples w @ [(current_time, Some Rising)]\<rparr>)
         else if \<not> current_smile_state \<and> is_smiling t1 then
           (let (t2, w2) = pause_music (t1\<lparr>is_smiling := False\<rparr>)
                             (w\<lparr>samples := samples w @ [(current_time, Some Falling)]\<rparr>)
            in (None, t2, w2))
         else (None, t1, w\<lparr>samples := samples w @ [(current_time, None)]\<rparr>))
      else (None, t, w))"

fun process_faces :: "os_env \<Rightarrow> face list \<Rightarrow> trigger \<Rightarrow> world \<Rightarrow> error option \<times> trigger \<times> world" where
  "process_faces env [] t w = (None, t, w)"
| "process_faces env (f # fs) t w =
     (case process_face env f t w of
        (Some e, t1, w1) \<Rightarrow> (Some e, t1, w1)
      | (None, t1, w1) \<Rightarrow> process_faces env fs t1 w1)"

text \<open>
  One iteration of \<open>while True\<close>, lines 251-320, and the loop over the frames the camera
  delivers. \<open>Running\<close>: the loop goes on to the next frame; \<open>Exited\<close>: it reached a
  \<open>break\<close>; \<open>Crashed\<close>: an exception left it.
\<close>

datatype status = Running | Exited | Crashed error

definition loop_body :: "os_env \<Rightarrow> frame \<Rightarrow> trigger \<Rightarrow> world \<Rightarrow> status \<times> trigger \<times> world" where
  "loop_body env fr t w =
     (if \<not> frame_ret fr then (Exited, t, w)
      else
        (case process_faces env (frame_faces fr) t w of
           (Some e, t1, w1) \<Rightarrow> (Crashed e, t1, w1)
         | (None, t1, w1) \<Rightarrow>
             if frame_key fr AND 255 = 113 then (Exited, t1, w1) else (Running, t1, w1)))"

fun main_loop :: "os_env \<Rightarrow> frame list \<Rightarrow> trigger \<Rightarrow> world \<Rightarrow> status \<times> trigger \<times> world" where
  "main_loop env [] t w = (Running, t, w)"
| "main_loop env (fr # frs) t w =
     (case loop_body env fr t w of
        (Running, t1, w1) \<Rightarrow> main_loop env frs t1 w1
      | (Exited, t1, w1) \<Rightarrow> (Exited, t1, w1)
      | (Crashed e, t1, w1) \<Rightarrow> (Crashed e, t1, w1))"

text \<open>
  \<open>run\<close>, lines 227-325, on the frames delivered so far: the choice of the music file,
  the loop, and the cleanup once the loop has reached a \<open>break\<close>.
\<close>

definition local_media_path :: "(string \<times> expression_config) list \<Rightarrow> string \<Rightarrow> string option option" where
  "local_media_path expressions name =
     (case map_of expressions name of
        None \<Rightarrow> None
      | Some c \<Rightarrow>
          if c \<noteq> [] \<and> map_of c ''action'' = Some ''play_local''
          then Some (map_of c ''media_path'') else None)"

definition choose_music_path :: "(string \<times> expression_config) list \<Rightarrow> string option" where
  "choose_music_path expressions =
     (case local_media_path expressions ''smile'' of
        Some m \<Rightarrow> m
      | None \<Rightarrow>
          (case local_media_path expressions ''eyebrow_raise'' of
             Some m \<Rightarrow> m
           | None \<Rightarrow> None))"

definition run_setup ::
  "os_env \<Rightarrow> (string \<times> expression_config) list \<Rightarrow> trigger \<Rightarrow> world \<Rightarrow> trigger \<times> world" where
  "run_setup env expressions t w =
     (let (t1, w1) =
            (case choose_music_path expressions of
               None \<Rightarrow> (t, w)
             | Some m \<Rightarrow> if m = [] then (t, w) else snd (load_music env m t w))
      in (t1, emit [Printed (CHR 0x0A # ''Controls:''),
                    Printed ''  - SMILE to play music'',
                    Printed ''  - STOP SMILING (frown/neutral) to pause music'',
                    Printed ''  - Music resumes where it left off''] w1))"

definition run :: "os_env \<Rightarrow> frame list \<Rightarrow> trigger \<Rightarrow> world \<Rightarrow> status \<times> trigger \<times> world" where
  "run env frames t w =
     (let w0 = emit [Printed ''FacePlay Trigger started! Press 'q' to quit.''] w in
      case config_expressions t of
        None \<Rightarrow> (Crashed KeyError, t, w0)
      | Some expressions \<Rightarrow>
          (case run_setup env expressions t w0 of
             (t1, w2) \<Rightarrow>
               (case main_loop env frames t1 w2 of
                  (Exited, t3, w3) \<Rightarrow> (case stop_music t3 w3 of (t4, w4) \<Rightarrow> (Exited, t4, w4))
                | (Running, t3, w3) \<Rightarrow> (Running, t3, w3)
                | (Crashed e, t3, w3) \<Rightarrow> (Crashed e, t3, w3))))"

text \<open>The reported edges of a sample log, and the two properties of such logs.\<close>

definition edges_of :: "(real \<times> edge option) list \<Rightarrow> edge list" where
  "edges_of sl = concat (map (\<lambda>(c, e). case e of None \<Rightarrow> [] | Some x \<Rightarrow> [x]) sl)"

fun alternating :: "bool \<Rightarrow> edge list \<Rightarrow> bool" where
  "alternating s [] = True"
| "alternating s (Rising # es) = (\<not> s \<and> alternating True es)"
| "alternating s (Falling # es) = (s \<and> alternating False es)"

fun spaced :: "real \<Rightarrow> real \<Rightarrow> real list \<Rightarrow> bool" where
  "spaced iv prev [] = True"
| "spaced iv prev (c # cs) = (c - prev \<ge> iv \<and> spaced iv c cs)"

section \<open>Properties stated about the program\<close>

text \<open>
  The invariant of the playback controller: the pair (\<open>audio_process\<close>, \<open>is_paused\<close>)
  stands for a playback state, the handle is present exactly in \<open>Playing\<close> and \<open>Paused\<close>,
  and the processes spawned and not terminated are the one behind the handle, if any.
\<close>

definition playback_inv :: "trigger \<Rightarrow> world \<Rightarrow> bool" where
  "playback_inv t w =
     (playback_state t \<noteq> None
      \<and> ((audio_process t \<noteq> None) = (playback_state t = Some Playing \<or> playback_state t = Some Paused))
      \<and> (is_paused t \<longrightarrow> audio_process t \<noteq> None)
      \<and> owned w = (case audio_process t of None \<Rightarrow> [] | Some p \<Rightarrow> [p])
      \<and> length (owned w) \<le> 1)"

text \<open>A process handle is only ever held together with a loaded, non-empty media path.\<close>

definition handle_has_media :: "trigger \<Rightarrow> bool" where
  "handle_has_media t = (audio_process t = None \<or> truthy (music_file t))"



text \<open>The reading "faces after the first never affect the state".\<close>

definition first_face_only :: "os_env \<Rightarrow> face list \<Rightarrow> trigger \<Rightarrow> world \<Rightarrow> bool" where
  "first_face_only env fs t w = (process_faces env fs t w = process_faces env (take 1 fs) t w)"

text \<open>The instants of a sample log at which an edge was reported.\<close>

definition edge_times :: "(real \<times> edge option) list \<Rightarrow> real list" where
  "edge_times sl = map fst (filter (\<lambda>(c, e). e \<noteq> None) sl)"

section \<open>Example inputs\<close>

definition smiles_seen :: "nat \<Rightarrow> box list" where
  "smiles_seen n = replicate n (20, 60, 40, 25)"

text \<open>A loaded controller, and environments in which mpg123 is present, in which it is
  missing and cannot be installed, and in which it stays missing after two installations.\<close>

definition loaded_trigger :: trigger where
  "loaded_trigger = (init_trigger (Some default_expressions))\<lparr>music_file := Some ''song3.mp3''\<rparr>"

definition env_player_present :: os_env where
  "env_player_present =
     \<lparr> popen_result = (\<lambda>n. PopenOk (100 + n)),
       apt_result = (\<lambda>n. AptOk),
       path_exists = (\<lambda>p. True),
       recursion_budget = 990 \<rparr>"



definition env_still_missing :: os_env where
  "env_still_missing =
     \<lparr> popen_result = (\<lambda>n. if n < 2 then PopenFileNotFound else PopenOk (100 + n)),
       apt_result = (\<lambda>n. AptOk),
       path_exists = (\<lambda>p. True),
       recursion_budget = 990 \<rparr>"

section \<open>Auxiliary notions for the sampler\<close>

text \<open>
  The sustained state after a sequence of edges, and the facts about the sample log that
  every step of the loop keeps: the instants are spaced, \<open>last_smile_check\<close> is the last
  instant, the edges alternate and \<open>is_smiling\<close> is the state they lead to.
\<close>

definition final_state :: "bool \<Rightarrow> edge list \<Rightarrow> bool" where
  "final_state s es = (if es = [] then s else last es = Rising)"

definition sampler_inv :: "real \<Rightarrow> trigger \<Rightarrow> world \<Rightarrow> bool" where
  "sampler_inv iv t w =
     (smile_check_interval t = iv
      \<and> spaced iv 0 (map fst (samples w))
      \<and> last_smile_check t = last (0 # map fst (samples w))
      \<and> alternating False (edges_of (samples w))
      \<and> is_smiling t = final_state False (edges_of (samples w)))"

text \<open>Faces for the examples: read at the given clock value, smiling or not.\<close>

definition face_at :: "real \<Rightarrow> bool \<Rightarrow> face" where
  "face_at c smiling =
     \<lparr> face_coords = (100, 80, 200, 200),
       face_eyes = eyes_seen 2,
       face_smiles = (if smiling then smiles_seen 1 else []),
       face_clock = c \<rparr>"

text \<open>Four camera frames: a smiling face read at 1000, a face read 0.5 s later, a frame
  without faces, and a face without a smile read at 1002 while q is pressed.\<close>

definition example_frames :: "frame list" where
  "example_frames =
     [\<lparr>frame_ret = True, frame_faces = [face_at 1000 True], frame_key = - 1\<rparr>,
      \<lparr>frame_ret = True, frame_faces = [face_at (10005 / 10) False], frame_key = - 1\<rparr>,
      \<lparr>frame_ret = True, frame_faces = [], frame_key = - 1\<rparr>,
      \<lparr>frame_ret = True, frame_faces = [face_at 1002 False], frame_key = 113\<rparr>]"

text \<open>A configuration whose smile entry plays a local file, and two camera frames: a
  smiling face read at 1000 and a face without a smile read at 1002.\<close>

definition local_expressions :: "(string \<times> expression_config) list" where
  "local_expressions =
     [(''smile'',
         [(''action'', ''play_local''),
          (''media_path'', ''song3.mp3''),
          (''description'', ''Smile plays local music'')])]"

definition resume_frames :: "frame list" where
  "resume_frames =
     [\<lparr>frame_ret = True, frame_faces = [face_at 1000 True], frame_key = - 1\<rparr>,
      \<lparr>frame_ret = True, frame_faces = [face_at 1002 False], frame_key = - 1\<rparr>]"

text \<open>
  Calls of \<open>load_music\<close> as the world shows them: each call prints one line that starts
  with "Music loaded: " or "Audio file not found: ", and nothing else in the program
  prints such a line.
\<close>

fun is_load_report :: "event \<Rightarrow> bool" where
  "is_load_report (Printed s) =
     (take (length ''Music loaded: '') s = ''Music loaded: ''
      \<or> take (length ''Audio file not found: '') s = ''Audio file not found: '')"
| "is_load_report (Spawned p args) = False"
| "is_load_report (SignalSent p n) = False"
| "is_load_report (Terminated p) = False"
| "is_load_report (ThreadStarted f a) = False"

definition load_calls :: "world \<Rightarrow> nat" where
  "load_calls w = length (filter is_load_report (events w))"

section \<open>Wink detection\<close>

lemma wink_events_single_eye_run:
  "last_eye_count t = 1 \<Longrightarrow> wink_frames t = 1 \<Longrightarrow>
   fst (wink_events (map eyes_seen (replicate k 1 @ [2])) t) = replicate k False @ [True]"
proof (induction k arbitrary: t)
  case 0
  then show ?case by (simp add: eyes_seen_def detect_wink_def)
next
  case (Suc k)
  have "detect_wink (eyes_seen 1) t = (False, t)"
    using Suc.prems by (simp add: eyes_seen_def detect_wink_def)
  then show ?case using Suc by (simp add: split_beta)
qed

text \<open>
  A run of single-eye frames of any length between two two-eye frames is reported as a
  wink: \<open>wink_frames\<close> is incremented on the frame that enters the run only, so the bound
  of 8 is never exceeded.
\<close>

lemma wink_fires_after_any_run:
  "fst (wink_events (map eyes_seen (2 # replicate (Suc k) 1 @ [2])) (init_trigger cfg))
     = False # replicate (Suc k) False @ [True]"
proof -
  let ?t0 = "init_trigger cfg"
  have a: "detect_wink (eyes_seen 2) ?t0 = (False, ?t0)"
    by (simp add: eyes_seen_def detect_wink_def init_trigger_def)
  let ?t1 = "snd (detect_wink (eyes_seen 1) ?t0)"
  have b: "fst (detect_wink (eyes_seen 1) ?t0) = False" "last_eye_count ?t1 = 1" "wink_frames ?t1 = 1"
    by (simp_all add: eyes_seen_def detect_wink_def init_trigger_def)
  show ?thesis
    using a b wink_events_single_eye_run[OF b(2) b(3), of k]
    by (simp add: split_beta)
qed

text \<open>
  C1. The claim: a wink is reported iff the eye counts contain 2, then k frames of 1, then
  2, with k between 1 and 8; a run of k = 9 is not reported. The code at that input: the
  eye counts 2, 1 (nine times), 2 from the initial state make \<open>detect_wink\<close> return True
  at the last frame.
\<close>

theorem detect_wink_fires_on_nine_frame_run:
  "fst (wink_events (map eyes_seen [2, 1, 1, 1, 1, 1, 1, 1, 1, 1, 2]) (init_trigger cfg))
     = [False, False, False, False, False, False, False, False, False, False, True]"
  by (simp add: eyes_seen_def detect_wink_def init_trigger_def)

section \<open>Smile onset\<close>

lemma smile_events_append:
  "smile_events (fs @ gs) t =
     (let (bs, t1) = smile_events fs t; (cs, t2) = smile_events gs t1 in (bs @ cs, t2))"
  by (induction fs arbitrary: t) (simp_all add: split_beta Let_def)

lemma smile_events_length: "length (fst (smile_events fs t)) = length fs"
  by (induction fs arbitrary: t) (simp_all add: split_beta Let_def)

lemma trailing_run_snoc:
  "trailing_run (fs @ [f]) = (if smile_present f then Suc (trailing_run fs) else 0)"
  by (simp add: trailing_run_def)

lemma smile_frames_trailing:
  "smile_frames t = 0 \<Longrightarrow> smile_frames (snd (smile_events fs t)) = int (trailing_run fs)"
proof (induction fs rule: rev_induct)
  case Nil
  then show ?case by (simp add: trailing_run_def)
next
  case (snoc f fs)
  then show ?case
    by (simp add: smile_events_append split_beta Let_def trailing_run_snoc
          detect_smile_def smile_present_def)
qed

lemma smile_event_at:
  assumes "smile_frames t = 0" "i < length fs"
  shows "fst (smile_events fs t) ! i = (trailing_run (take (Suc i) fs) = 3)"
proof -
  have fs: "fs = take i fs @ [fs ! i] @ drop (Suc i) fs"
    using assms(2) by (simp add: id_take_nth_drop)
  have len: "length (fst (smile_events (take i fs) t)) = i"
    using assms(2) by (simp add: smile_events_length)
  have "fst (smile_events fs t) ! i
      = fst (detect_smile (fs ! i) (snd (smile_events (take i fs) t)))"
    apply (subst fs)
    apply (simp only: smile_events_append)
    using len by (simp add: split_beta Let_def nth_append)
  also have "\<dots> = (trailing_run (take i fs @ [fs ! i]) = 3)"
    using smile_frames_trailing[OF assms(1), of "take i fs"]
    by (auto simp add: detect_smile_def trailing_run_snoc smile_present_def Let_def)
  finally show ?thesis using assms(2) by (simp add: take_Suc_conv_app_nth)
qed

lemma smile_count_from:
  "smile_frames t = int n \<Longrightarrow>
   length (filter id (fst (smile_events fs t))) + (if n \<ge> 3 then 1 else 0)
     = length (filter (\<lambda>m. m \<ge> 3) (run_lengths (map smile_present fs) n))"
proof (induction fs arbitrary: t n)
  case Nil
  then show ?case by simp
next
  case (Cons f fs)
  show ?case
  proof (cases "smile_present f")
    case True
    have s: "smile_frames (snd (detect_smile f t)) = int (Suc n)"
      using True Cons.prems by (simp add: detect_smile_def smile_present_def Let_def)
    have b: "fst (detect_smile f t) = (n = 2)"
      using True Cons.prems by (auto simp add: detect_smile_def smile_present_def Let_def)
    show ?thesis
      using Cons.IH[OF s] True b by (auto simp add: split_beta Let_def)
  next
    case False
    have s: "smile_frames (snd (detect_smile f t)) = int 0"
      using False by (simp add: detect_smile_def smile_present_def)
    have b: "fst (detect_smile f t) = False"
      using False by (simp add: detect_smile_def smile_present_def)
    show ?thesis
      using Cons.IH[OF s] False b by (auto simp add: split_beta Let_def)
  qed
qed

text \<open>
  C2. From the initial state, for every sequence of per-frame smile results: the detector
  answers once per frame; it reports an onset at frame i exactly when the run of smiling
  frames that ends at frame i has length 3, that is at the frame where a run reaches
  length 3 and at no later frame of that run; and the number of onsets is the number of
  maximal runs of smiling frames of length at least 3.
\<close>

theorem smile_onset_once_per_run:
  "length (fst (smile_events fs (init_trigger cfg))) = length fs
   \<and> (\<forall>i < length fs.
         fst (smile_events fs (init_trigger cfg)) ! i = (trailing_run (take (Suc i) fs) = 3))
   \<and> length (filter id (fst (smile_events fs (init_trigger cfg))))
       = length (filter (\<lambda>m. m \<ge> 3) (run_lengths (map smile_present fs) 0))"
proof -
  have z: "smile_frames (init_trigger cfg) = 0" by (simp add: init_trigger_def)
  have c: "length (filter id (fst (smile_events fs (init_trigger cfg))))
       = length (filter (\<lambda>m. m \<ge> 3) (run_lengths (map smile_present fs) 0))"
    using smile_count_from[of "init_trigger cfg" 0 fs] z by simp
  show ?thesis
    using smile_events_length smile_event_at[OF z] c by blast
qed

text \<open>The smile stream T, T, T, T, F: one onset, at the third frame.\<close>

theorem smile_onset_once_per_run_witness:
  "length (fst (smile_events (map smiles_seen [1, 1, 1, 1, 0]) (init_trigger None))) = 5
   \<and> (2::nat) < length (map smiles_seen [1, 1, 1, 1, 0])
   \<and> fst (smile_events (map smiles_seen [1, 1, 1, 1, 0]) (init_trigger None)) ! 2
   \<and> trailing_run (take (Suc 2) (map smiles_seen [1, 1, 1, 1, 0])) = 3
   \<and> (3::nat) < length (map smiles_seen [1, 1, 1, 1, 0])
   \<and> \<not> fst (smile_events (map smiles_seen [1, 1, 1, 1, 0]) (init_trigger None)) ! 3
   \<and> length (filter id (fst (smile_events (map smiles_seen [1, 1, 1, 1, 0]) (init_trigger None)))) = 1"
proof -
  let ?fs = "map smiles_seen [1, 1, 1, 1, 0]"
  have l: "(2::nat) < length ?fs" "(3::nat) < length ?fs" by simp_all
  have r2: "trailing_run (take (Suc 2) ?fs) = 3"
    by (simp add: trailing_run_def smiles_seen_def smile_present_def)
  have r3: "trailing_run (take (Suc 3) ?fs) = 4"
    by (simp add: trailing_run_def smiles_seen_def smile_present_def)
  have rl: "length (filter (\<lambda>m. m \<ge> 3) (run_lengths (map smile_present ?fs) 0)) = 1"
    by (simp add: smiles_seen_def smile_present_def)
  note th = smile_onset_once_per_run[of ?fs None]
  have a: "length (fst (smile_events ?fs (init_trigger None))) = 5" using th by simp
  have b: "fst (smile_events ?fs (init_trigger None)) ! 2" using th l(1) r2 by blast
  have c: "\<not> fst (smile_events ?fs (init_trigger None)) ! 3" using th l(2) r3 by auto
  have d: "length (filter id (fst (smile_events ?fs (init_trigger None)))) = 1" using th rl by simp
  show ?thesis using a b c d l r2 by blast
qed

section \<open>Trigger dispatcher: the cooldown\<close>

lemma trigger_action_passes_gate:
  assumes "last_trigger_time t e = Some l" "\<not> (c - l < trigger_cooldown t)"
  shows "last_trigger_time (fst (snd (trigger_action c e t w))) = (last_trigger_time t)(e \<mapsto> c)"
    and "trigger_cooldown (fst (snd (trigger_action c e t w))) = trigger_cooldown t"
  using assms
  by (simp_all add: trigger_action_def Let_def split: option.splits)

lemma trigger_action_suppressed:
  assumes "last_trigger_time t e = Some l" "c - l < trigger_cooldown t"
  shows "trigger_action c e t w = (None, t, w)"
  using assms by (simp add: trigger_action_def)

text \<open>
  C3. For an expression in the cooldown table and a call of \<open>trigger_action\<close> at time
  \<open>now\<close> that passes the cooldown test, a second call at \<open>now + \<Delta>\<close> with \<open>\<Delta> > 0\<close> returns
  with the object and the world unchanged (suppressed, nothing invoked) iff
  \<open>\<Delta> < trigger_cooldown\<close>, and records \<open>now + \<Delta>\<close> in the table iff \<open>\<Delta> \<ge> trigger_cooldown\<close>.
  Timestamps are real numbers here.
\<close>

theorem cooldown_two_calls:
  assumes "last_trigger_time t e = Some l"
      and "\<not> (now - l < trigger_cooldown t)"
      and "\<Delta> > 0"
      and "trigger_action now e t w = (r1, t1, w1)"
  shows "last_trigger_time t1 e = Some now
       \<and> ((trigger_action (now + \<Delta>) e t1 w1 = (None, t1, w1)) = (\<Delta> < trigger_cooldown t))
       \<and> ((last_trigger_time (fst (snd (trigger_action (now + \<Delta>) e t1 w1))) e = Some (now + \<Delta>))
            = (\<Delta> \<ge> trigger_cooldown t))"
proof -
  have t1: "last_trigger_time t1 e = Some now" "trigger_cooldown t1 = trigger_cooldown t"
    using trigger_action_passes_gate[OF assms(1,2), of w] assms(4) by simp_all
  show ?thesis
  proof (cases "\<Delta> < trigger_cooldown t")
    case True
    then have "trigger_action (now + \<Delta>) e t1 w1 = (None, t1, w1)"
      using t1 by (intro trigger_action_suppressed[where l = now]) simp_all
    then show ?thesis using True t1 assms(3) by simp
  next
    case False
    then have g: "\<not> ((now + \<Delta>) - now < trigger_cooldown t1)" using t1 by simp
    have u: "last_trigger_time (fst (snd (trigger_action (now + \<Delta>) e t1 w1))) e = Some (now + \<Delta>)"
      using trigger_action_passes_gate(1)[OF t1(1) g, of w1] by simp
    then have "trigger_action (now + \<Delta>) e t1 w1 \<noteq> (None, t1, w1)"
      using t1(1) assms(3) by auto
    then show ?thesis using False t1 u by simp
  qed
qed

text \<open>With the cooldown of 3 seconds: after a call at 5 that fires, a call at 7.9 is
  suppressed and a call at 8.1 fires.\<close>

theorem cooldown_two_calls_witness:
  "last_trigger_time (init_trigger (Some default_expressions)) ''smile'' = Some 0
   \<and> \<not> (5 - 0 < trigger_cooldown (init_trigger (Some default_expressions)))
   \<and> (29 / 10 :: real) > 0
   \<and> trigger_action (5 + 29 / 10) ''smile''
        (fst (snd (trigger_action 5 ''smile'' (init_trigger (Some default_expressions)) init_world)))
        (snd (snd (trigger_action 5 ''smile'' (init_trigger (Some default_expressions)) init_world)))
      = (None,
         fst (snd (trigger_action 5 ''smile'' (init_trigger (Some default_expressions)) init_world)),
         snd (snd (trigger_action 5 ''smile'' (init_trigger (Some default_expressions)) init_world)))
   \<and> last_trigger_time (fst (snd (trigger_action (5 + 31 / 10) ''smile''
        (fst (snd (trigger_action 5 ''smile'' (init_trigger (Some default_expressions)) init_world)))
        (snd (snd (trigger_action 5 ''smile'' (init_trigger (Some default_expressions)) init_world))))))
        ''smile'' = Some (5 + 31 / 10)"
proof -
  let ?t0 = "init_trigger (Some default_expressions)"
  let ?x = "trigger_action 5 ''smile'' ?t0 init_world"
  have a: "last_trigger_time ?t0 ''smile'' = Some 0" by (simp add: init_trigger_def)
  have b: "\<not> (5 - 0 < trigger_cooldown ?t0)" by (simp add: init_trigger_def)
  have d1: "(29 / 10 :: real) > 0" and d2: "(31 / 10 :: real) > 0" by simp_all
  have c: "?x = (fst ?x, fst (snd ?x), snd (snd ?x))" by simp
  have cd: "trigger_cooldown ?t0 = 3" by (simp add: init_trigger_def)
  have s: "(29 / 10 :: real) < trigger_cooldown ?t0" "(31 / 10 :: real) \<ge> trigger_cooldown ?t0"
    using cd by simp_all
  show ?thesis
    using cooldown_two_calls[OF a b d1 c] cooldown_two_calls[OF a b d2 c] a b s by simp
qed

section \<open>Playback controller\<close>

declare play_music.simps [simp del]

lemma owned_emit: "owned (emit es w) = foldl own_step (owned w) es"
  by (simp add: owned_def emit_def)

lemma owned_counters [simp]:
  "owned (w\<lparr>popen_calls := a\<rparr>) = owned w"
  "owned (w\<lparr>apt_calls := b\<rparr>) = owned w"
  "owned (w\<lparr>samples := c\<rparr>) = owned w"
  by (simp_all add: owned_def)

lemma emit_fields [simp]:
  "popen_calls (emit es w) = popen_calls w"
  "apt_calls (emit es w) = apt_calls w"
  "samples (emit es w) = samples w"
  "events (emit es w) = events w @ es"
  by (simp_all add: emit_def)

lemma playback_inv_iff:
  "playback_inv t w =
     ((is_paused t \<longrightarrow> audio_process t \<noteq> None)
      \<and> owned w = (case audio_process t of None \<Rightarrow> [] | Some p \<Rightarrow> [p]))"
  by (auto simp add: playback_inv_def playback_state_def split: option.splits)

lemma play_music_frame:
  "play_music env d t w = (r, t', w') \<Longrightarrow>
     music_file t' = music_file t \<and> is_smiling t' = is_smiling t
     \<and> last_smile_check t' = last_smile_check t
     \<and> smile_check_interval t' = smile_check_interval t
     \<and> samples w' = samples w"
proof (induction d arbitrary: w)
  case 0
  then show ?case
    by (subst (asm) play_music.simps)
       (auto simp add: Let_def split: option.splits popen_outcome.splits apt_outcome.splits if_splits)
next
  case (Suc d)
  from Suc.prems show ?case
    by (subst (asm) play_music.simps)
       (auto simp add: Let_def dest!: Suc.IH
             split: option.splits popen_outcome.splits apt_outcome.splits if_splits)
qed

lemma play_music_inv:
  "play_music env d t w = (r, t', w') \<Longrightarrow> playback_inv t w \<Longrightarrow> playback_inv t' w'"
proof (induction d arbitrary: w)
  case 0
  then show ?case
    by (subst (asm) play_music.simps)
       (auto simp add: Let_def playback_inv_iff owned_emit
             split: option.splits popen_outcome.splits apt_outcome.splits if_splits)
next
  case (Suc d)
  have step: "\<And>w2. play_music env d t w2 = (r, t', w') \<Longrightarrow> owned w2 = owned w \<Longrightarrow> playback_inv t' w'"
    using Suc.IH Suc.prems(2) by (simp add: playback_inv_iff)
  from Suc.prems show ?case
    by (subst (asm) play_music.simps)
       (auto simp add: Let_def playback_inv_iff owned_emit dest!: step
             split: option.splits popen_outcome.splits apt_outcome.splits if_splits)
qed

lemma play_music_media:
  "play_music env d t w = (r, t', w') \<Longrightarrow> handle_has_media t \<Longrightarrow> handle_has_media t'"
proof (induction d arbitrary: w)
  case 0
  then show ?case
    by (subst (asm) play_music.simps)
       (auto simp add: Let_def handle_has_media_def truthy_def
             split: option.splits popen_outcome.splits apt_outcome.splits if_splits)
next
  case (Suc d)
  from Suc.prems show ?case
    by (subst (asm) play_music.simps)
       (auto simp add: Let_def handle_has_media_def truthy_def dest!: Suc.IH
             split: option.splits popen_outcome.splits apt_outcome.splits if_splits)
qed

lemma pause_music_inv: "playback_inv t w \<Longrightarrow> playback_inv (fst (pause_music t w)) (snd (pause_music t w))"
  by (auto simp add: playback_inv_iff pause_music_def owned_emit split: option.splits)

lemma stop_music_inv: "playback_inv t w \<Longrightarrow> playback_inv (fst (stop_music t w)) (snd (stop_music t w))"
  by (auto simp add: playback_inv_iff stop_music_def owned_emit split: option.splits)

lemma load_music_inv:
  "playback_inv t w \<Longrightarrow> playback_inv (fst (snd (load_music env p t w))) (snd (snd (load_music env p t w)))"
  by (auto simp add: playback_inv_iff load_music_def owned_emit split: option.splits)

lemma init_inv: "playback_inv (init_trigger cfg) init_world"
  by (simp add: playback_inv_iff init_trigger_def init_world_def owned_def)

lemma pause_music_frame:
  "pause_music t w = (t', w') \<Longrightarrow>
     music_file t' = music_file t \<and> is_smiling t' = is_smiling t
     \<and> last_smile_check t' = last_smile_check t
     \<and> smile_check_interval t' = smile_check_interval t
     \<and> samples w' = samples w"
  by (auto simp add: pause_music_def split: option.splits if_splits)

lemma stop_music_frame:
  "stop_music t w = (t', w') \<Longrightarrow>
     music_file t' = music_file t \<and> is_smiling t' = is_smiling t
     \<and> last_smile_check t' = last_smile_check t
     \<and> smile_check_interval t' = smile_check_interval t
     \<and> samples w' = samples w"
  by (auto simp add: stop_music_def split: option.splits if_splits)

lemma do_call_media: "handle_has_media (fst s) \<Longrightarrow> handle_has_media (fst (do_call env c s))"
proof (cases s)
  case (Pair t w)
  assume h: "handle_has_media (fst s)"
  show ?thesis
  proof (cases c)
    case (Load p)
    then show ?thesis using h Pair
      by (auto simp add: load_music_def handle_has_media_def truthy_def os_path_exists_def)
  next
    case Play
    then show ?thesis using h Pair play_music_media[of env "recursion_budget env" t w]
      by (metis do_call.simps(2) fst_conv prod.collapse)
  next
    case Pause
    then show ?thesis using h Pair
      by (auto simp add: pause_music_def handle_has_media_def split: option.splits)
  next
    case Stop
    then show ?thesis using h Pair
      by (auto simp add: stop_music_def handle_has_media_def split: option.splits)
  qed
qed

lemma do_calls_media:
  "handle_has_media (fst s) \<Longrightarrow> handle_has_media (fst (do_calls env cs s))"
  unfolding do_calls_def
  by (induction cs arbitrary: s) (simp_all add: do_call_media)

lemma init_media: "handle_has_media (init_trigger cfg)"
  by (simp add: handle_has_media_def init_trigger_def)

lemma load_music_media:
  "handle_has_media t \<Longrightarrow> handle_has_media (fst (snd (load_music env p t w)))"
  by (auto simp add: load_music_def handle_has_media_def truthy_def os_path_exists_def)

lemma pause_music_media: "handle_has_media t \<Longrightarrow> handle_has_media (fst (pause_music t w))"
  by (auto simp add: pause_music_def handle_has_media_def split: option.splits)

lemma stop_music_media: "handle_has_media t \<Longrightarrow> handle_has_media (fst (stop_music t w))"
  by (auto simp add: stop_music_def handle_has_media_def split: option.splits)

lemma play_music_media':
  "handle_has_media t \<Longrightarrow> handle_has_media (fst (snd (play_music env d t w)))"
  using play_music_media[of env d t w] by (metis prod.collapse)

lemma handle_has_media_sampler_fields [simp]:
  "handle_has_media (t\<lparr>last_smile_check := c\<rparr>) = handle_has_media t"
  "handle_has_media (t\<lparr>is_smiling := b\<rparr>) = handle_has_media t"
  by (simp_all add: handle_has_media_def)

lemma process_face_media:
  "handle_has_media t \<Longrightarrow> handle_has_media (fst (snd (process_face env f t w)))"
  by (simp add: process_face_def Let_def split_beta play_music_media' pause_music_media)

lemma process_faces_media:
  "handle_has_media t \<Longrightarrow> handle_has_media (fst (snd (process_faces env fs t w)))"
proof (induction fs arbitrary: t w)
  case Nil
  then show ?case by simp
next
  case (Cons f fs)
  obtain r1 t1 w1 where p: "process_face env f t w = (r1, t1, w1)" by (metis prod_cases3)
  have m: "handle_has_media t1" using process_face_media[OF Cons.prems, of env f w] p by simp
  show ?case using p m Cons.IH[OF m, of w1] by (cases r1) simp_all
qed

lemma loop_body_media:
  "handle_has_media t \<Longrightarrow> handle_has_media (fst (snd (loop_body env fr t w)))"
proof -
  assume h: "handle_has_media t"
  obtain r1 t1 w1 where p: "process_faces env (frame_faces fr) t w = (r1, t1, w1)"
    by (metis prod_cases3)
  have "handle_has_media t1" using process_faces_media[OF h, of env "frame_faces fr" w] p by simp
  then show ?thesis using p h by (cases r1) (simp_all add: loop_body_def)
qed

lemma main_loop_media:
  "handle_has_media t \<Longrightarrow> handle_has_media (fst (snd (main_loop env frs t w)))"
proof (induction frs arbitrary: t w)
  case Nil
  then show ?case by simp
next
  case (Cons fr frs)
  obtain s1 t1 w1 where p: "loop_body env fr t w = (s1, t1, w1)" by (metis prod_cases3)
  have m: "handle_has_media t1" using loop_body_media[OF Cons.prems, of env fr w] p by simp
  show ?case using p m Cons.IH[OF m, of w1] by (cases s1) simp_all
qed

lemma run_setup_media:
  "handle_has_media t \<Longrightarrow> handle_has_media (fst (run_setup env ex t w))"
  by (auto simp add: run_setup_def Let_def split_beta load_music_media split: option.splits)

lemma run_media:
  assumes "handle_has_media t"
  shows "handle_has_media (fst (snd (run env frames t w)))"
proof (cases "config_expressions t")
  case None
  then show ?thesis using assms by (simp add: run_def Let_def)
next
  case (Some ex)
  let ?w0 = "emit [Printed ''FacePlay Trigger started! Press 'q' to quit.''] w"
  obtain t1 w2 where s: "run_setup env ex t ?w0 = (t1, w2)" by (metis prod.collapse)
  have m1: "handle_has_media t1" using run_setup_media[OF assms, of env ex ?w0] s by simp
  obtain s3 t3 w3 where m: "main_loop env frames t1 w2 = (s3, t3, w3)" by (metis prod_cases3)
  have m3: "handle_has_media t3" using main_loop_media[OF m1, of env frames w2] m by simp
  obtain t4 w4 where st: "stop_music t3 w3 = (t4, w4)" by (metis prod.collapse)
  have m4: "handle_has_media t4" using stop_music_media[OF m3, of w3] st by simp
  show ?thesis
    using Some s m st m3 m4 by (cases s3) (simp_all add: run_def Let_def)
qed

lemma play_music_resume:
  assumes "handle_has_media t" and "audio_process t = Some p" and "is_paused t"
  shows "play_music env d t w =
           (None, t\<lparr>is_paused := False\<rparr>, emit [SignalSent p 18, Printed ''Music resumed''] w)"
proof -
  have "truthy (music_file t)" using assms(1,2) by (simp add: handle_has_media_def)
  then show ?thesis
    using assms(2,3)
    by (subst play_music.simps) (auto simp add: truthy_def split: option.splits)
qed

text \<open>
  C4. A handle is only ever held together with a loaded media path
  (\<open>handle_has_media\<close>): this holds initially and is kept by every sequence of
  controller calls, by the loop body, by the main loop and by \<open>run\<close>. In every such
  state with the handle present and \<open>is_paused\<close> set, \<open>play_music\<close> sends signal 18
  (SIGCONT) to the process behind the handle and clears \<open>is_paused\<close>, and nothing else:
  the handle is the same, the state is \<open>Playing\<close>, \<open>Popen\<close> has not been entered and the
  owned processes are the same. So does the call the loop makes on a rising edge.
\<close>

theorem play_while_paused_resumes:
  "handle_has_media (init_trigger cfg)
   \<and> (handle_has_media t \<longrightarrow>
         handle_has_media (fst (do_calls env cs (t, w)))
       \<and> handle_has_media (fst (snd (process_face env f t w)))
       \<and> handle_has_media (fst (snd (main_loop env frames t w)))
       \<and> handle_has_media (fst (snd (run env frames t w))))
   \<and> (handle_has_media t \<and> audio_process t = Some p \<and> is_paused t \<longrightarrow>
         play_music env d t w =
           (None, t\<lparr>is_paused := False\<rparr>, emit [SignalSent p 18, Printed ''Music resumed''] w)
       \<and> audio_process (fst (snd (play_music env d t w))) = audio_process t
       \<and> playback_state (fst (snd (play_music env d t w))) = Some Playing
       \<and> popen_calls (snd (snd (play_music env d t w))) = popen_calls w
       \<and> owned (snd (snd (play_music env d t w))) = owned w)
   \<and> (handle_has_media t \<and> audio_process t = Some p \<and> is_paused t \<and> \<not> is_smiling t
        \<and> face_clock f - last_smile_check t \<ge> smile_check_interval t
        \<and> detect_smile_state (face_smiles f) \<longrightarrow>
         process_face env f t w =
           (None, t\<lparr>last_smile_check := face_clock f, is_smiling := True, is_paused := False\<rparr>,
            emit [SignalSent p 18, Printed ''Music resumed'']
              (w\<lparr>samples := samples w @ [(face_clock f, Some Rising)]\<rparr>)))"
proof (intro conjI impI)
  show "handle_has_media (init_trigger cfg)" by (rule init_media)
next
  assume "handle_has_media t"
  then show "handle_has_media (fst (do_calls env cs (t, w)))"
    using do_calls_media[of "(t, w)" env cs] by simp
next
  assume "handle_has_media t"
  then show "handle_has_media (fst (snd (process_face env f t w)))" by (rule process_face_media)
next
  assume "handle_has_media t"
  then show "handle_has_media (fst (snd (main_loop env frames t w)))" by (rule main_loop_media)
next
  assume "handle_has_media t"
  then show "handle_has_media (fst (snd (run env frames t w)))" by (rule run_media)
next
  assume a: "handle_has_media t \<and> audio_process t = Some p \<and> is_paused t"
  then have r: "play_music env d t w =
           (None, t\<lparr>is_paused := False\<rparr>, emit [SignalSent p 18, Printed ''Music resumed''] w)"
    using play_music_resume by blast
  show "play_music env d t w =
           (None, t\<lparr>is_paused := False\<rparr>, emit [SignalSent p 18, Printed ''Music resumed''] w)"
    by (rule r)
  show "audio_process (fst (snd (play_music env d t w))) = audio_process t"
    unfolding r by simp
  show "playback_state (fst (snd (play_music env d t w))) = Some Playing"
    unfolding r using a by (simp add: playback_state_def)
  show "popen_calls (snd (snd (play_music env d t w))) = popen_calls w"
    unfolding r by simp
  show "owned (snd (snd (play_music env d t w))) = owned w"
    unfolding r by (simp add: owned_emit)
next
  assume a: "handle_has_media t \<and> audio_process t = Some p \<and> is_paused t \<and> \<not> is_smiling t
        \<and> face_clock f - last_smile_check t \<ge> smile_check_interval t
        \<and> detect_smile_state (face_smiles f)"
  let ?t2 = "t\<lparr>last_smile_check := face_clock f, is_smiling := True\<rparr>"
  have "play_music env (recursion_budget env) ?t2 (w\<lparr>samples := samples w @ [(face_clock f, Some Rising)]\<rparr>)
      = (None, ?t2\<lparr>is_paused := False\<rparr>, emit [SignalSent p 18, Printed ''Music resumed'']
              (w\<lparr>samples := samples w @ [(face_clock f, Some Rising)]\<rparr>))"
    using a by (intro play_music_resume) simp_all
  then show "process_face env f t w =
           (None, t\<lparr>last_smile_check := face_clock f, is_smiling := True, is_paused := False\<rparr>,
            emit [SignalSent p 18, Printed ''Music resumed'']
              (w\<lparr>samples := samples w @ [(face_clock f, Some Rising)]\<rparr>))"
    using a by (simp add: process_face_def Let_def)
qed

text \<open>A run with media loaded: spawned on the smile at 1000, paused at 1002; a smile read
  at 1004 resumes the same process.\<close>

lemma resume_run_eval:
  "run env_player_present resume_frames (init_trigger (Some local_expressions)) init_world
   = (Running,
      (init_trigger (Some local_expressions))
        \<lparr>music_file := Some ''song3.mp3'', audio_process := Some 100, is_paused := True,
         is_smiling := False, last_smile_check := 1002\<rparr>,
      \<lparr>popen_calls = 1, apt_calls = 0,
       events = [Printed ''FacePlay Trigger started! Press 'q' to quit.'',
                 Printed ''Music loaded: song3.mp3'',
                 Printed (CHR 0x0A # ''Controls:''),
                 Printed ''  - SMILE to play music'',
                 Printed ''  - STOP SMILING (frown/neutral) to pause music'',
                 Printed ''  - Music resumes where it left off'',
                 Spawned 100 [''mpg123'', ''--loop'', ''-1'', ''song3.mp3''],
                 Printed ''Music playing'', SignalSent 100 19, Printed ''Music paused''],
       samples = [(1000, Some Rising), (1002, Some Falling)]\<rparr>)"
  by (simp add: run_def run_setup_def choose_music_path_def local_media_path_def local_expressions_def
        resume_frames_def loop_body_def process_face_def face_at_def detect_smile_state_def
        smiles_seen_def init_trigger_def init_world_def play_music.simps pause_music_def
        load_music_def os_path_exists_def env_player_present_def emit_def Let_def)

theorem play_while_paused_resumes_witness:
  "handle_has_media (fst (snd (run env_player_present resume_frames (init_trigger (Some local_expressions)) init_world)))
   \<and> audio_process (fst (snd (run env_player_present resume_frames (init_trigger (Some local_expressions)) init_world))) = Some 100
   \<and> is_paused (fst (snd (run env_player_present resume_frames (init_trigger (Some local_expressions)) init_world)))
   \<and> \<not> is_smiling (fst (snd (run env_player_present resume_frames (init_trigger (Some local_expressions)) init_world)))
   \<and> face_clock (face_at 1004 True)
        - last_smile_check (fst (snd (run env_player_present resume_frames (init_trigger (Some local_expressions)) init_world)))
       \<ge> smile_check_interval (fst (snd (run env_player_present resume_frames (init_trigger (Some local_expressions)) init_world)))
   \<and> detect_smile_state (face_smiles (face_at 1004 True))
   \<and> audio_process (fst (snd (process_face env_player_present (face_at 1004 True)
         (fst (snd (run env_player_present resume_frames (init_trigger (Some local_expressions)) init_world)))
         (snd (snd (run env_player_present resume_frames (init_trigger (Some local_expressions)) init_world)))))) = Some 100
   \<and> \<not> is_paused (fst (snd (process_face env_player_present (face_at 1004 True)
         (fst (snd (run env_player_present resume_frames (init_trigger (Some local_expressions)) init_world)))
         (snd (snd (run env_player_present resume_frames (init_trigger (Some local_expressions)) init_world))))))
   \<and> popen_calls (snd (snd (process_face env_player_present (face_at 1004 True)
         (fst (snd (run env_player_present resume_frames (init_trigger (Some local_expressions)) init_world)))
         (snd (snd (run env_player_present resume_frames (init_trigger (Some local_expressions)) init_world)))))) = 1"
proof -
  let ?R = "run env_player_present resume_frames (init_trigger (Some local_expressions)) init_world"
  let ?T = "fst (snd ?R)"
  let ?W = "snd (snd ?R)"
  let ?f = "face_at 1004 True"
  note th = play_while_paused_resumes[of "Some local_expressions" "init_trigger (Some local_expressions)"
      env_player_present "[]" init_world ?f resume_frames]
  have h0: "handle_has_media (init_trigger (Some local_expressions))" using th by blast
  have h: "handle_has_media ?T" using th h0 by blast
  have a: "audio_process ?T = Some 100" by (simp add: resume_run_eval)
  have b: "is_paused ?T" by (simp add: resume_run_eval)
  have c: "\<not> is_smiling ?T" by (simp add: resume_run_eval)
  have d: "face_clock ?f - last_smile_check ?T \<ge> smile_check_interval ?T"
    unfolding resume_run_eval by (simp add: face_at_def init_trigger_def)
  have e: "detect_smile_state (face_smiles ?f)"
    by (simp add: face_at_def detect_smile_state_def smiles_seen_def)
  have pc: "popen_calls ?W = 1" by (simp add: resume_run_eval)
  have "process_face env_player_present ?f ?T ?W =
           (None, ?T\<lparr>last_smile_check := face_clock ?f, is_smiling := True, is_paused := False\<rparr>,
            emit [SignalSent 100 18, Printed ''Music resumed'']
              (?W\<lparr>samples := samples ?W @ [(face_clock ?f, Some Rising)]\<rparr>))"
    using play_while_paused_resumes[of cfg ?T env_player_present cs ?W ?f frames 100 d] h a b c d e
    by blast
  then show ?thesis using h a b c d e pc by simp
qed

text \<open>
  C5. The invariant \<open>playback_inv\<close> (the handle is present iff the state is \<open>Playing\<close> or
  \<open>Paused\<close>, \<open>is_paused\<close> implies a handle, and the owned audio processes are exactly the
  one behind the handle, so at most one) holds in the initial state and is kept by
  \<open>play_music\<close>, \<open>pause_music\<close>, \<open>stop_music\<close> and \<open>load_music\<close>, whatever the
  environment answers.
\<close>

theorem playback_invariant:
  "playback_inv (init_trigger cfg) init_world
   \<and> (playback_inv t w \<longrightarrow>
        playback_inv (fst (snd (play_music env d t w))) (snd (snd (play_music env d t w)))
      \<and> playback_inv (fst (pause_music t w)) (snd (pause_music t w))
      \<and> playback_inv (fst (stop_music t w)) (snd (stop_music t w))
      \<and> playback_inv (fst (snd (load_music env p t w))) (snd (snd (load_music env p t w))))"
proof -
  have "playback_inv t w \<Longrightarrow>
        playback_inv (fst (snd (play_music env d t w))) (snd (snd (play_music env d t w)))"
    using play_music_inv[of env d t w] by (metis prod.collapse)
  then show ?thesis
    using init_inv pause_music_inv stop_music_inv load_music_inv by blast
qed

text \<open>A first call of play with media loaded: the invariant holds before and after.\<close>

theorem playback_invariant_witness:
  "playback_inv loaded_trigger init_world
   \<and> playback_inv (fst (snd (play_music env_player_present 990 loaded_trigger init_world)))
                   (snd (snd (play_music env_player_present 990 loaded_trigger init_world)))
   \<and> audio_process (fst (snd (play_music env_player_present 990 loaded_trigger init_world))) = Some 100"
proof -
  have i: "playback_inv loaded_trigger init_world"
    by (simp add: playback_inv_iff loaded_trigger_def init_trigger_def init_world_def owned_def)
  have e: "audio_process (fst (snd (play_music env_player_present 990 loaded_trigger init_world))) = Some 100"
    by (subst play_music.simps)
       (simp add: loaded_trigger_def init_trigger_def init_world_def env_player_present_def Let_def)
  show ?thesis
    using playback_invariant[of None loaded_trigger init_world env_player_present 990] i e by blast
qed


text \<open>When the binary is still missing after an installation that succeeded, the nested
  call installs again and spawns a third time.\<close>

lemma play_music_reinstalls:
  "play_music env_still_missing 990 loaded_trigger init_world =
     (None, loaded_trigger\<lparr>audio_process := Some 102, is_paused := False\<rparr>,
      \<lparr>popen_calls = 3, apt_calls = 2,
       events = [Printed ''mpg123 not found. Installing...'',
                 Printed ''mpg123 not found. Installing...'',
                 Spawned 102 [''mpg123'', ''--loop'', ''-1'', ''song3.mp3''],
                 Printed ''Music playing''],
       samples = []\<rparr>)"
proof -
  have n: "(990::nat) = Suc (Suc 988)" by simp
  show ?thesis
    unfolding n
    apply (subst play_music.simps)
    apply (simp add: env_still_missing_def loaded_trigger_def init_trigger_def init_world_def emit_def Let_def)
    apply (subst play_music.simps)
    apply (simp add: Let_def)
    apply (subst play_music.simps)
    apply (simp add: Let_def)
    done
qed










lemma load_calls_fields [simp]:
  "load_calls (w\<lparr>popen_calls := a\<rparr>) = load_calls w"
  "load_calls (w\<lparr>apt_calls := b\<rparr>) = load_calls w"
  "load_calls (w\<lparr>samples := c\<rparr>) = load_calls w"
  by (simp_all add: load_calls_def)
















section \<open>Sustained smile sampling in the main loop\<close>

lemma spaced_snoc: "spaced iv p (cs @ [c]) = (spaced iv p cs \<and> c - last (p # cs) \<ge> iv)"
  by (induction cs arbitrary: p) auto

lemma alternating_snoc:
  "alternating s (es @ [e]) =
     (alternating s es \<and> (case e of Rising \<Rightarrow> \<not> final_state s es | Falling \<Rightarrow> final_state s es))"
proof (induction s es rule: alternating.induct)
  case (1 s)
  then show ?case by (cases e) (simp_all add: final_state_def)
next
  case (2 s es)
  then show ?case by (cases e) (auto simp add: final_state_def)
next
  case (3 s es)
  then show ?case by (cases e) (auto simp add: final_state_def)
qed

lemma edges_of_snoc:
  "edges_of (sl @ [(c, e)]) = edges_of sl @ (case e of None \<Rightarrow> [] | Some x \<Rightarrow> [x])"
  by (simp add: edges_of_def)

lemma final_state_snoc: "final_state s (es @ [e]) = (e = Rising)"
  by (simp add: final_state_def)

lemma sampler_inv_cong:
  "sampler_inv iv t w \<Longrightarrow> is_smiling t' = is_smiling t \<Longrightarrow> last_smile_check t' = last_smile_check t
   \<Longrightarrow> smile_check_interval t' = smile_check_interval t \<Longrightarrow> samples w' = samples w
   \<Longrightarrow> sampler_inv iv t' w'"
  by (simp add: sampler_inv_def)

lemma process_face_sampler:
  assumes "process_face env f t w = (r, t', w')" and "sampler_inv iv t w"
  shows "sampler_inv iv t' w'"
proof (cases "face_clock f - last_smile_check t \<ge> smile_check_interval t")
  case False
  then show ?thesis using assms by (simp add: process_face_def)
next
  case due: True
  let ?c = "face_clock f"
  let ?t1 = "t\<lparr>last_smile_check := ?c\<rparr>"
  consider (rise) "detect_smile_state (face_smiles f)" "\<not> is_smiling t"
    | (fall) "\<not> detect_smile_state (face_smiles f)" "is_smiling t"
    | (same) "detect_smile_state (face_smiles f) = is_smiling t"
    by blast
  then show ?thesis
  proof cases
    case rise
    let ?t2 = "?t1\<lparr>is_smiling := True\<rparr>"
    let ?w2 = "w\<lparr>samples := samples w @ [(?c, Some Rising)]\<rparr>"
    have "play_music env (recursion_budget env) ?t2 ?w2 = (r, t', w')"
      using assms(1) due rise by (simp add: process_face_def Let_def)
    note fr = play_music_frame[OF this]
    have "sampler_inv iv ?t2 ?w2"
      using assms(2) due rise
      by (simp add: sampler_inv_def spaced_snoc edges_of_snoc alternating_snoc final_state_snoc)
    then show ?thesis by (rule sampler_inv_cong) (use fr in simp_all)
  next
    case fall
    let ?t2 = "?t1\<lparr>is_smiling := False\<rparr>"
    let ?w2 = "w\<lparr>samples := samples w @ [(?c, Some Falling)]\<rparr>"
    have "pause_music ?t2 ?w2 = (t', w')"
      using assms(1) due fall by (simp add: process_face_def Let_def split: prod.splits)
    note fr = pause_music_frame[OF this]
    have "sampler_inv iv ?t2 ?w2"
      using assms(2) due fall
      by (simp add: sampler_inv_def spaced_snoc edges_of_snoc alternating_snoc final_state_snoc)
    then show ?thesis by (rule sampler_inv_cong) (use fr in simp_all)
  next
    case same
    then have "t' = ?t1" "w' = w\<lparr>samples := samples w @ [(?c, None)]\<rparr>"
      using assms(1) due by (auto simp add: process_face_def Let_def)
    then show ?thesis
      using assms(2) due
      by (simp add: sampler_inv_def spaced_snoc edges_of_snoc)
  qed
qed

lemma process_faces_sampler:
  "process_faces env fs t w = (r, t', w') \<Longrightarrow> sampler_inv iv t w \<Longrightarrow> sampler_inv iv t' w'"
proof (induction fs arbitrary: t w)
  case Nil
  then show ?case by simp
next
  case (Cons f fs)
  obtain r1 t1 w1 where p: "process_face env f t w = (r1, t1, w1)" by (metis prod_cases3)
  have i: "sampler_inv iv t1 w1" using process_face_sampler[OF p Cons.prems(2)] .
  show ?case
  proof (cases r1)
    case None
    then show ?thesis using Cons.prems(1) p Cons.IH[OF _ i] by simp
  next
    case (Some e)
    then show ?thesis using Cons.prems(1) p i by simp
  qed
qed

lemma loop_body_sampler:
  "loop_body env fr t w = (st, t', w') \<Longrightarrow> sampler_inv iv t w \<Longrightarrow> sampler_inv iv t' w'"
proof -
  assume a: "loop_body env fr t w = (st, t', w')" and i: "sampler_inv iv t w"
  obtain r1 t1 w1 where p: "process_faces env (frame_faces fr) t w = (r1, t1, w1)"
    by (metis prod_cases3)
  have "sampler_inv iv t1 w1" using process_faces_sampler[OF p i] .
  then show ?thesis
    using a i p by (auto simp add: loop_body_def split: if_splits option.splits)
qed

lemma main_loop_sampler:
  "main_loop env frs t w = (st, t', w') \<Longrightarrow> sampler_inv iv t w \<Longrightarrow> sampler_inv iv t' w'"
proof (induction frs arbitrary: t w)
  case Nil
  then show ?case by simp
next
  case (Cons fr frs)
  obtain s1 t1 w1 where p: "loop_body env fr t w = (s1, t1, w1)" by (metis prod_cases3)
  have i: "sampler_inv iv t1 w1" using loop_body_sampler[OF p Cons.prems(2)] .
  show ?case
  proof (cases s1)
    case Running
    then show ?thesis using Cons.prems(1) p Cons.IH[OF _ i] by simp
  next
    case Exited
    then show ?thesis using Cons.prems(1) p i by simp
  next
    case (Crashed e)
    then show ?thesis using Cons.prems(1) p i by simp
  qed
qed

lemma spaced_sorted_wrt:
  "iv \<ge> 0 \<Longrightarrow> spaced iv p cs \<Longrightarrow>
     sorted_wrt (\<lambda>a b. b - a \<ge> iv) cs \<and> (\<forall>c \<in> set cs. c - p \<ge> iv)"
proof (induction cs arbitrary: p)
  case Nil
  then show ?case by simp
next
  case (Cons c cs)
  then have s: "sorted_wrt (\<lambda>a b. b - a \<ge> iv) cs" and b: "\<forall>x \<in> set cs. x - c \<ge> iv"
    and c: "c - p \<ge> iv"
    by auto
  have "\<forall>x \<in> set cs. x - p \<ge> iv"
  proof
    fix x assume "x \<in> set cs"
    then have "x - c \<ge> iv" using b by blast
    then show "x - p \<ge> iv" using c Cons.prems(1) by linarith
  qed
  then show ?case using s b c by simp
qed

lemma edge_times_sorted:
  "sorted_wrt (\<lambda>a b. b - a \<ge> iv) (map fst sl) \<Longrightarrow> sorted_wrt (\<lambda>a b. b - a \<ge> (iv::real)) (edge_times sl)"
  unfolding edge_times_def sorted_wrt_map by (rule sorted_wrt_filter)

lemma init_sampler: "sampler_inv (3 / 2) (init_trigger cfg) init_world"
  by (simp add: sampler_inv_def init_trigger_def init_world_def edges_of_def final_state_def)

lemma sampler_inv_emit [simp]: "sampler_inv iv t (emit es w) = sampler_inv iv t w"
  by (simp add: sampler_inv_def)

lemma load_music_sampler:
  "snd (load_music env p t w) = (t', w') \<Longrightarrow> sampler_inv iv t w \<Longrightarrow> sampler_inv iv t' w'"
  by (auto simp add: load_music_def sampler_inv_def split: if_splits)

lemma run_setup_sampler:
  "run_setup env ex t w = (t1, w2) \<Longrightarrow> sampler_inv iv t w \<Longrightarrow> sampler_inv iv t1 w2"
  by (auto simp add: run_setup_def Let_def dest: load_music_sampler
        split: option.splits if_splits prod.splits)

lemma run_sampler:
  assumes "run env frames t w = (st, t', w')" and "sampler_inv iv t w"
  shows "sampler_inv iv t' w'"
proof (cases "config_expressions t")
  case None
  then show ?thesis using assms by (auto simp add: run_def Let_def)
next
  case (Some ex)
  let ?w0 = "emit [Printed ''FacePlay Trigger started! Press 'q' to quit.''] w"
  obtain t1 w2 where s: "run_setup env ex t ?w0 = (t1, w2)" by (metis prod.collapse)
  have i1: "sampler_inv iv t1 w2" using run_setup_sampler[OF s] assms(2) by simp
  obtain s3 t3 w3 where m: "main_loop env frames t1 w2 = (s3, t3, w3)" by (metis prod_cases3)
  have i3: "sampler_inv iv t3 w3" using main_loop_sampler[OF m i1] .
  obtain t4 w4 where st: "stop_music t3 w3 = (t4, w4)" by (metis prod.collapse)
  have i4: "sampler_inv iv t4 w4"
    by (rule sampler_inv_cong[OF i3]) (use stop_music_frame[OF st] in simp_all)
  show ?thesis
    using assms(1) Some s m st i3 i4 by (cases s3) (auto simp add: run_def Let_def)
qed

text \<open>
  C8. For every run of the program from its initial state, on any frames and in any
  environment: the sampling instants are spaced by at least \<open>smile_check_interval\<close>, each
  from the one before and the first from 0, hence any two of them; the edges are reported
  at sampling instants only, so any two edges are that far apart as well; and the reported
  edges alternate, starting with a rising edge, so two rising edges never occur without a
  falling edge between them.
\<close>

theorem sustained_edges_spaced_and_alternating:
  "spaced (smile_check_interval (init_trigger cfg)) 0
      (map fst (samples (snd (snd (run env frames (init_trigger cfg) init_world)))))
   \<and> sorted_wrt (\<lambda>a b. b - a \<ge> smile_check_interval (init_trigger cfg))
      (map fst (samples (snd (snd (run env frames (init_trigger cfg) init_world)))))
   \<and> sorted_wrt (\<lambda>a b. b - a \<ge> smile_check_interval (init_trigger cfg))
      (edge_times (samples (snd (snd (run env frames (init_trigger cfg) init_world)))))
   \<and> alternating False
      (edges_of (samples (snd (snd (run env frames (init_trigger cfg) init_world)))))"
proof -
  obtain st t' w' where r: "run env frames (init_trigger cfg) init_world = (st, t', w')"
    by (metis prod_cases3)
  have iv: "smile_check_interval (init_trigger cfg) = 3 / 2" by (simp add: init_trigger_def)
  have i: "sampler_inv (3 / 2) t' w'" using run_sampler[OF r init_sampler] .
  then have sp: "spaced (3 / 2) 0 (map fst (samples w'))"
    and al: "alternating False (edges_of (samples w'))"
    by (simp_all add: sampler_inv_def)
  have so: "sorted_wrt (\<lambda>a b. b - a \<ge> 3 / 2) (map fst (samples w'))"
    using spaced_sorted_wrt[OF _ sp] by simp
  show ?thesis
    unfolding iv r using sp al so edge_times_sorted[OF so] by simp
qed

text \<open>On the four example frames the sampler reports a rising edge at 1000 and a falling
  edge at 1002; the face read at 1000.5 is not sampled.\<close>

lemma example_run_samples:
  "samples (snd (snd (run env_player_present example_frames (init_trigger (Some default_expressions)) init_world)))
     = [(1000, Some Rising), (1002, Some Falling)]"
  by (simp add: run_def run_setup_def choose_music_path_def local_media_path_def default_expressions_def
        example_frames_def loop_body_def process_face_def face_at_def detect_smile_state_def
        smiles_seen_def init_trigger_def init_world_def play_music.simps pause_music_def stop_music_def
        emit_def Let_def)

theorem sustained_edges_witness:
  "samples (snd (snd (run env_player_present example_frames (init_trigger (Some default_expressions)) init_world)))
     = [(1000, Some Rising), (1002, Some Falling)]
   \<and> sorted_wrt (\<lambda>a b. b - a \<ge> 3 / 2) [1000, 1002 :: real]
   \<and> alternating False [Rising, Falling]"
proof -
  have iv: "smile_check_interval (init_trigger (Some default_expressions)) = 3 / 2"
    by (simp add: init_trigger_def)
  show ?thesis
    using sustained_edges_spaced_and_alternating[of "Some default_expressions" env_player_present example_frames]
    unfolding example_run_samples iv
    by (simp add: edges_of_def)
qed

section \<open>Frames with several faces and with none\<close>

lemma process_face_due:
  assumes "face_clock g - last_smile_check t \<ge> smile_check_interval t"
  shows "last_smile_check (fst (snd (process_face env g t w))) = face_clock g"
proof -
  have p: "\<And>t0 w0. last_smile_check (fst (snd (play_music env (recursion_budget env) t0 w0))) = last_smile_check t0"
    using play_music_frame by (metis prod.collapse)
  have q: "\<And>t0 w0. last_smile_check (fst (pause_music t0 w0)) = last_smile_check t0"
    using pause_music_frame by (metis prod.collapse)
  show ?thesis
    using assms by (simp add: process_face_def Let_def p q split_beta)
qed

lemma process_faces_none_due:
  "\<forall>g \<in> set fs. face_clock g - last_smile_check t < smile_check_interval t
     \<Longrightarrow> process_faces env fs t w = (None, t, w)"
  by (induction fs) (simp_all add: process_face_def)

lemma first_sample_eval:
  "process_faces env_player_present [face_at 1000 False] (init_trigger None) init_world
     = (None, (init_trigger None)\<lparr>last_smile_check := 1000\<rparr>,
        init_world\<lparr>samples := [(1000, None)]\<rparr>)"
  by (simp add: process_face_def face_at_def detect_smile_state_def init_trigger_def init_world_def)

lemma two_faces_eval:
  "is_smiling (fst (snd (process_faces env_player_present
        [face_at (10014 / 10) False, face_at (10015 / 10) True]
        ((init_trigger None)\<lparr>last_smile_check := 1000\<rparr>)
        (init_world\<lparr>samples := [(1000, None)]\<rparr>))))"
  by (simp add: process_face_def face_at_def detect_smile_state_def smiles_seen_def
        init_trigger_def init_world_def play_music.simps Let_def)

lemma one_face_eval:
  "\<not> is_smiling (fst (snd (process_faces env_player_present
        (take 1 [face_at (10014 / 10) False, face_at (10015 / 10) True])
        ((init_trigger None)\<lparr>last_smile_check := 1000\<rparr>)
        (init_world\<lparr>samples := [(1000, None)]\<rparr>))))"
  by (simp add: process_face_def face_at_def detect_smile_state_def smiles_seen_def
        init_trigger_def init_world_def play_music.simps Let_def)

text \<open>
  C9, the claim as stated fails: after a sample at 1000, a frame whose first face is read
  at 1001.4 (not due) and whose second face is read at 1001.5 (due) and smiles sets
  \<open>is_smiling\<close>, which the first face alone does not.
\<close>

theorem first_face_only_counterexample:
  "\<not> first_face_only env_player_present
        [face_at (10014 / 10) False, face_at (10015 / 10) True]
        (fst (snd (process_faces env_player_present [face_at 1000 False] (init_trigger None) init_world)))
        (snd (snd (process_faces env_player_present [face_at 1000 False] (init_trigger None) init_world)))"
  unfolding first_face_only_def first_sample_eval
  using two_faces_eval one_face_eval by (metis fst_conv snd_conv)

text \<open>
  C9, amended. The loop body runs for every detected face of the frame, in the order of
  the result list, each with its own clock reading. The faces after the first leave the
  state as the first face left it whenever none of them is due, that is when each of
  their clock readings is less than \<open>smile_check_interval\<close> after \<open>last_smile_check\<close> as
  the first face left it. A face that is due, whatever its position, is sampled:
  \<open>last_smile_check\<close> becomes its clock reading.
\<close>

theorem later_faces_not_due:
  "((\<forall>g \<in> set fs. face_clock g - last_smile_check (fst (snd (process_face env f t w)))
                            < smile_check_interval (fst (snd (process_face env f t w))))
      \<longrightarrow> process_faces env (f # fs) t w = process_face env f t w)
   \<and> (face_clock g - last_smile_check t \<ge> smile_check_interval t
      \<longrightarrow> last_smile_check (fst (snd (process_face env g t w))) = face_clock g)"
proof (intro conjI impI)
  assume a: "\<forall>g \<in> set fs. face_clock g - last_smile_check (fst (snd (process_face env f t w)))
                            < smile_check_interval (fst (snd (process_face env f t w)))"
  obtain r1 t1 w1 where p: "process_face env f t w = (r1, t1, w1)" by (metis prod_cases3)
  show "process_faces env (f # fs) t w = process_face env f t w"
  proof (cases r1)
    case None
    then show ?thesis using p a process_faces_none_due[of fs t1 env w1] by simp
  next
    case (Some e)
    then show ?thesis using p by simp
  qed
next
  assume "face_clock g - last_smile_check t \<ge> smile_check_interval t"
  then show "last_smile_check (fst (snd (process_face env g t w))) = face_clock g"
    by (rule process_face_due)
qed

theorem later_faces_not_due_witness:
  "face_clock (face_at (10001 / 10) True)
       - last_smile_check (fst (snd (process_face env_player_present (face_at 1000 False)
                                       (init_trigger None) init_world)))
     < smile_check_interval (fst (snd (process_face env_player_present (face_at 1000 False)
                                       (init_trigger None) init_world)))
   \<and> process_faces env_player_present [face_at 1000 False, face_at (10001 / 10) True]
         (init_trigger None) init_world
       = process_face env_player_present (face_at 1000 False) (init_trigger None) init_world
   \<and> face_clock (face_at 1000 False) - last_smile_check (init_trigger None)
       \<ge> smile_check_interval (init_trigger None)
   \<and> last_smile_check (fst (snd (process_face env_player_present (face_at 1000 False)
                                     (init_trigger None) init_world))) = 1000"
proof -
  have e: "process_face env_player_present (face_at 1000 False) (init_trigger None) init_world
     = (None, (init_trigger None)\<lparr>last_smile_check := 1000\<rparr>,
        init_world\<lparr>samples := [(1000, None)]\<rparr>)"
    by (simp add: process_face_def face_at_def detect_smile_state_def init_trigger_def init_world_def)
  have a: "face_clock (face_at (10001 / 10) True)
       - last_smile_check (fst (snd (process_face env_player_present (face_at 1000 False)
                                       (init_trigger None) init_world)))
     < smile_check_interval (fst (snd (process_face env_player_present (face_at 1000 False)
                                       (init_trigger None) init_world)))"
    unfolding e by (simp add: face_at_def init_trigger_def)
  have b: "face_clock (face_at 1000 False) - last_smile_check (init_trigger None)
             \<ge> smile_check_interval (init_trigger None)"
    by (simp add: face_at_def init_trigger_def)
  have c: "face_clock (face_at 1000 False) = 1000" by (simp add: face_at_def)
  show ?thesis
    using later_faces_not_due[of "[face_at (10001 / 10) True]" env_player_present
             "face_at 1000 False" "init_trigger None" init_world "face_at 1000 False"] a b c
    by simp
qed

text \<open>
  C10. An iteration of the main loop on a frame without faces leaves the object and the
  world as they are: \<open>is_smiling\<close>, \<open>last_smile_check\<close>, the handle and \<open>is_paused\<close> are
  unchanged and no signal is sent, so music that plays goes on playing.
\<close>

theorem no_faces_no_change:
  "frame_faces fr = [] \<Longrightarrow> snd (loop_body env fr t w) = (t, w)"
  by (simp add: loop_body_def)

theorem no_faces_no_change_witness:
  "frame_faces \<lparr>frame_ret = True, frame_faces = [], frame_key = - 1\<rparr> = []
   \<and> loop_body env_player_present \<lparr>frame_ret = True, frame_faces = [], frame_key = - 1\<rparr>
        (fst (snd (play_music env_player_present 990 (loaded_trigger\<lparr>is_smiling := True\<rparr>) init_world)))
        (snd (snd (play_music env_player_present 990 (loaded_trigger\<lparr>is_smiling := True\<rparr>) init_world)))
      = (Running,
         fst (snd (play_music env_player_present 990 (loaded_trigger\<lparr>is_smiling := True\<rparr>) init_world)),
         snd (snd (play_music env_player_present 990 (loaded_trigger\<lparr>is_smiling := True\<rparr>) init_world)))"
proof -
  let ?fr = "\<lparr>frame_ret = True, frame_faces = [], frame_key = - 1\<rparr>"
  have a: "frame_faces ?fr = []" by simp
  have s: "fst (loop_body env_player_present ?fr t w) = Running" for t w
    by (simp add: loop_body_def)
  show ?thesis
    using no_faces_no_change[OF a, of env_player_present] s a
    by (metis prod.collapse)
qed

end
